theory Spec2Isabelle
  imports Main "HOL-Library.Multiset"
begin

section \<open>ReferenceManager: citation order, labels and change detection\<close>

text \<open>
  A shallow embedding of \<^verbatim>\<open>src/editor/util/ReferenceManager.js\<close>.

  The host document is a tree of element nodes. It is represented by the list of its
  elements in document order; each element carries its id, its tag name, its XML
  attributes, the id of its parent and the loosely typed \<^verbatim>\<open>state\<close> object that the manager
  attaches to nodes. The objects that the manager uses as dictionaries (\<^verbatim>\<open>order\<close>,
  \<^verbatim>\<open>refLabels\<close>, \<^verbatim>\<open>xrefLabels\<close>, \<^verbatim>\<open>change.updated\<close>) are plain JavaScript objects: they are
  modelled by their own properties together with what \<^verbatim>\<open>Object.prototype\<close> adds to every
  read, write and method call. A \<^verbatim>\<open>TypeError\<close> raised by reading a property of \<^verbatim>\<open>undefined\<close>
  or \<^verbatim>\<open>null\<close>, or by calling what is not a function, is the value \<open>Inl TypeError\<close>.
\<close>

subsection \<open>Plain objects\<close>

datatype error = TypeError

text \<open>
  What a read of \<^verbatim>\<open>obj[key]\<close> gives: \<^verbatim>\<open>undefined\<close>, a value that the program stored, or
  what the key names on \<^verbatim>\<open>Object.prototype\<close>. The latter is a built-in function, and for
  \<^verbatim>\<open>__proto__\<close> it is \<^verbatim>\<open>Object.prototype\<close> itself.
\<close>

datatype 'a js = Undefined | Val 'a | Inherited string

text \<open>The property names of \<^verbatim>\<open>Object.prototype\<close>, which no code here extends.\<close>

definition proto_names :: "string list" where
  "proto_names =
     [''constructor'', ''__defineGetter__'', ''__defineSetter__'', ''hasOwnProperty'',
      ''__lookupGetter__'', ''__lookupSetter__'', ''isPrototypeOf'', ''propertyIsEnumerable'',
      ''toString'', ''valueOf'', ''__proto__'', ''toLocaleString'']"

text \<open>
  An object created by \<^verbatim>\<open>{}\<close> is the map of its own properties. \<^verbatim>\<open>obj[key]\<close> finds an own
  property first and looks on the prototype otherwise.
\<close>

definition js_get :: "(string \<rightharpoonup> 'a) \<Rightarrow> string \<Rightarrow> 'a js" where
  "js_get obj key =
     (case obj key of
        Some v \<Rightarrow> Val v
      | None \<Rightarrow> if key \<in> set proto_names then Inherited key else Undefined)"

text \<open>
  \<^verbatim>\<open>obj[key] = v\<close> for a number, a string or a boolean \<open>v\<close>: the assignment makes an own
  property, except at \<^verbatim>\<open>__proto__\<close>, whose setter ignores a value that is not an object.
\<close>

definition js_set :: "(string \<rightharpoonup> 'a) \<Rightarrow> string \<Rightarrow> 'a \<Rightarrow> (string \<rightharpoonup> 'a)" where
  "js_set obj key v = (if key = ''__proto__'' then obj else obj(key \<mapsto> v))"

text \<open>
  \<^verbatim>\<open>obj.hasOwnProperty(key)\<close>: the method is looked up on the object like any property.
  Once the object has an own property of that name, which here is a number or a
  string, the call raises a \<^verbatim>\<open>TypeError\<close>.
\<close>

definition hasOwnProperty :: "(string \<rightharpoonup> 'a) \<Rightarrow> string \<Rightarrow> error + bool" where
  "hasOwnProperty obj key =
     (case obj ''hasOwnProperty'' of
        Some v \<Rightarrow> Inl TypeError
      | None \<Rightarrow> Inr (obj key \<noteq> None))"

text \<open>
  The keys of an object that records ids by \<^verbatim>\<open>obj[id] = true\<close>.
\<close>

definition recorded_keys :: "string set \<Rightarrow> string set" where
  "recorded_keys ids = ids - {''__proto__''}"

subsection \<open>Documents\<close>

datatype entity = Entity string

record node_state =
  entity :: "entity option"
  label :: "string js"
  pos :: "nat js"

record node =
  node_id :: string
  node_type :: string
  attributes :: "(string \<times> string) list"
  parent :: "string option"
  state :: "node_state option"

type_synonym document = "node list"

text \<open>\<^verbatim>\<open>doc.get(id)\<close>: the node with that id, or \<^verbatim>\<open>undefined\<close>.\<close>

definition get :: "document \<Rightarrow> string \<Rightarrow> node option" where
  "get d i = find (\<lambda>n. node_id n = i) d"

text \<open>\<^verbatim>\<open>node.getAttribute(name)\<close>.\<close>

definition getAttribute :: "node \<Rightarrow> string \<Rightarrow> string option" where
  "getAttribute n name = map_of (attributes n) name"

text \<open>The selector \<^verbatim>\<open>xref[ref-type='bibr']\<close>: the in-scope citation markers.\<close>

definition is_bibr_xref :: "node \<Rightarrow> bool" where
  "is_bibr_xref n \<longleftrightarrow> node_type n = ''xref'' \<and> getAttribute n ''ref-type'' = Some ''bibr''"

definition findAll_bibr_xrefs :: "document \<Rightarrow> node list" where
  "findAll_bibr_xrefs d = filter is_bibr_xref d"

text \<open>The selector \<^verbatim>\<open>ref-list > ref\<close>: the \<^verbatim>\<open>ref\<close> children of a \<^verbatim>\<open>ref-list\<close> element.\<close>

definition is_ref_list_ref :: "document \<Rightarrow> node \<Rightarrow> bool" where
  "is_ref_list_ref d n \<longleftrightarrow>
     node_type n = ''ref'' \<and>
     (case parent n of
        None \<Rightarrow> False
      | Some p \<Rightarrow> (case get d p of None \<Rightarrow> False | Some pn \<Rightarrow> node_type pn = ''ref-list''))"

definition findAll_refs :: "document \<Rightarrow> node list" where
  "findAll_refs d = filter (is_ref_list_ref d) d"

text \<open>\<^verbatim>\<open>doc.find('ref-list')\<close>: the first \<^verbatim>\<open>ref-list\<close> element, or \<^verbatim>\<open>null\<close>.\<close>

definition find_ref_list :: "document \<Rightarrow> node option" where
  "find_ref_list d = find (\<lambda>n. node_type n = ''ref-list'') d"

subsection \<open>The session\<close>

text \<open>
  The editor session holds the document. \<open>dirty\<close>, \<open>change\<close> and \<open>flows\<close> record what
  \<^verbatim>\<open>_setDirty\<close>, the assignment to \<^verbatim>\<open>_change\<close> and \<^verbatim>\<open>startFlow()\<close> do: each started flow
  is the change notification that the observers of the session receive; of the
  \<^verbatim>\<open>DocumentChange\<close> the manager fills only \<^verbatim>\<open>updated\<close>. \<^verbatim>\<open>_info\<close>, which the manager resets to
  an empty object and never reads, is left out. \<open>timers\<close> counts
  the callbacks \<^verbatim>\<open>() => this._updateCitationLabels()\<close> that \<^verbatim>\<open>setTimeout\<close> has queued and
  that have not run yet.
\<close>

record document_change =
  updated :: "string set"

record session =
  document :: document
  entityDb :: "string \<Rightarrow> entity option"
  timers :: nat
  dirty :: "string set"
  change :: "document_change option"
  flows :: "document_change list"

subsection \<open>The label generator\<close>

text \<open>
  \<^verbatim>\<open>labelGenerator.getLabel\<close> is supplied by the configuration. It is called with
  \<^verbatim>\<open>order[id]\<close> and with an array of such values, and returns a string. \<^verbatim>\<open>order[id]\<close> is a
  position, unless the read falls through to the prototype.
\<close>

datatype label_arg = Position "nat js" | Positions "nat js list"

type_synonym labelGenerator = "label_arg \<Rightarrow> string"

subsection \<open>String.prototype.split\<close>

text \<open>
  \<^verbatim>\<open>s.split(' ')\<close> cuts at every single separator: the result is never empty, the empty
  string gives one empty piece, and two separators in a row give an empty piece.
\<close>

fun split :: "char \<Rightarrow> string \<Rightarrow> string list" where
  "split sep [] = [[]]"
| "split sep (c # cs) =
     (if c = sep then [] # split sep cs
      else (case split sep cs of [] \<Rightarrow> [[c]] | w # ws \<Rightarrow> (c # w) # ws))"

subsection \<open>Computing order and labels\<close>

text \<open>
  The inner loop \<^verbatim>\<open>rids.forEach\<close> of \<^verbatim>\<open>_updateCitationLabels\<close>, with the variables it
  assigns (\<^verbatim>\<open>pos\<close>, \<^verbatim>\<open>order\<close>, \<^verbatim>\<open>refLabels\<close>, \<^verbatim>\<open>numbers\<close>) passed along. \<^verbatim>\<open>pos++\<close> counts also
  when the assignment to \<^verbatim>\<open>order[id]\<close> is ignored, and the label is made from what
  \<^verbatim>\<open>order[id]\<close> reads after the assignment.
\<close>

fun rids_forEach ::
  "labelGenerator \<Rightarrow> string list \<Rightarrow> nat \<Rightarrow> (string \<rightharpoonup> nat) \<Rightarrow> (string \<rightharpoonup> string) \<Rightarrow> nat js list
     \<Rightarrow> error + (nat \<times> (string \<rightharpoonup> nat) \<times> (string \<rightharpoonup> string) \<times> nat js list)" where
  "rids_forEach getLabel [] p order refLabels numbers = Inr (p, order, refLabels, numbers)"
| "rids_forEach getLabel (i # ids) p order refLabels numbers =
     (case hasOwnProperty order i of
        Inl e \<Rightarrow> Inl e
      | Inr False \<Rightarrow>
          (let order' = js_set order i p;
               refLabels' = js_set refLabels i (getLabel (Position (js_get order' i)))
           in rids_forEach getLabel ids (p + 1) order' refLabels' (numbers @ [js_get order' i]))
      | Inr True \<Rightarrow> rids_forEach getLabel ids p order refLabels (numbers @ [js_get order i]))"

text \<open>
  The outer loop \<^verbatim>\<open>xrefs.forEach\<close>. An in-scope marker without a \<^verbatim>\<open>rid\<close> attribute makes
  \<^verbatim>\<open>xref.getAttribute('rid').split(' ')\<close> raise a \<^verbatim>\<open>TypeError\<close>, and so does the inner loop
  when \<^verbatim>\<open>order.hasOwnProperty\<close> is no longer a function.
\<close>

fun xrefs_forEach ::
  "labelGenerator \<Rightarrow> node list \<Rightarrow> nat \<Rightarrow> (string \<rightharpoonup> nat) \<Rightarrow> (string \<rightharpoonup> string)
     \<Rightarrow> (string \<rightharpoonup> string)
     \<Rightarrow> error + (nat \<times> (string \<rightharpoonup> nat) \<times> (string \<rightharpoonup> string) \<times> (string \<rightharpoonup> string))" where
  "xrefs_forEach getLabel [] p order refLabels xrefLabels =
     Inr (p, order, refLabels, xrefLabels)"
| "xrefs_forEach getLabel (xref # xrefs) p order refLabels xrefLabels =
     (case getAttribute xref ''rid'' of
        None \<Rightarrow> Inl TypeError
      | Some rid \<Rightarrow>
          (case rids_forEach getLabel (split CHR '' '' rid) p order refLabels [] of
             Inl e \<Rightarrow> Inl e
           | Inr (p', order', refLabels', numbers) \<Rightarrow>
               xrefs_forEach getLabel xrefs p' order' refLabels'
                 (js_set xrefLabels (node_id xref) (getLabel (Positions numbers)))))"

subsection \<open>getBibliography\<close>

text \<open>
  \<^verbatim>\<open>Array.prototype.sort(comparefn)\<close> belongs to the host engine. It is modelled as the
  straight insertion sort that V8 ran on arrays of up to ten elements when the source
  was written: each element in turn moves left past the elements \<open>t\<close> before it for
  which \<^verbatim>\<open>comparefn(t, element) > 0\<close>, and stops at the first one for which it is not.
  The comparator of the source returns a boolean, which the engine reads as \<open>1\<close> or
  \<open>0\<close>. On longer arrays that engine ran a quicksort, and V8 from 7.0 on moves an
  element only for a negative result, so that under this comparator it returns the
  array as it is: the order that \<open>js_sort\<close> gives is that of the host only where these
  agree. The manager itself reads from the sorted array only which nodes it holds
  (\<open>mset_js_sort\<close> below), never their order.
\<close>

definition insertion_step :: "('a \<Rightarrow> 'a \<Rightarrow> int) \<Rightarrow> 'a list \<Rightarrow> 'a \<Rightarrow> 'a list" where
  "insertion_step comparefn sorted_part element =
     rev (dropWhile (\<lambda>t. comparefn t element > 0) (rev sorted_part))
       @ [element]
       @ rev (takeWhile (\<lambda>t. comparefn t element > 0) (rev sorted_part))"

definition js_sort :: "('a \<Rightarrow> 'a \<Rightarrow> int) \<Rightarrow> 'a list \<Rightarrow> 'a list" where
  "js_sort comparefn xs = foldl (insertion_step comparefn) [] xs"

text \<open>
  The string that a value inherited from \<^verbatim>\<open>Object.prototype\<close> converts to: the source text
  of a built-in function (\<^verbatim>\<open>constructor\<close> is the function \<^verbatim>\<open>Object\<close>), and \<^verbatim>\<open>[object Object]\<close>
  for the prototype itself.
\<close>

definition inherited_string :: "string \<Rightarrow> string" where
  "inherited_string key =
     (if key = ''__proto__'' then ''[object Object]''
      else ''function '' @ (if key = ''constructor'' then ''Object'' else key)
             @ ''() { [native code] }'')"

text \<open>Strings compare by their code units.\<close>

fun string_less :: "string \<Rightarrow> string \<Rightarrow> bool" where
  "string_less [] [] = False"
| "string_less [] (y # ys) = True"
| "string_less (x # xs) [] = False"
| "string_less (x # xs) (y # ys) =
     (if (of_char x :: nat) < of_char y then True
      else if (of_char x :: nat) = of_char y then string_less xs ys
      else False)"

text \<open>
  \<^verbatim>\<open>x > y\<close> on what \<^verbatim>\<open>state.pos\<close> can hold. Two numbers compare as numbers. Two inherited
  values convert to strings and compare as strings. In every other case one side
  converts to \<^verbatim>\<open>NaN\<close> and the comparison is false.
\<close>

fun js_greater :: "nat js \<Rightarrow> nat js \<Rightarrow> bool" where
  "js_greater (Val x) (Val y) = (x > y)"
| "js_greater (Inherited a) (Inherited b) = string_less (inherited_string b) (inherited_string a)"
| "js_greater _ _ = False"

text \<open>\<^verbatim>\<open>a.state.pos\<close>, where \<^verbatim>\<open>a.state\<close> is an object.\<close>

definition state_pos :: "node \<Rightarrow> nat js" where
  "state_pos n = (case state n of None \<Rightarrow> Undefined | Some st \<Rightarrow> pos st)"

definition pos_comparefn :: "node \<Rightarrow> node \<Rightarrow> int" where
  "pos_comparefn a b = (if js_greater (state_pos a) (state_pos b) then 1 else 0)"

definition empty_state :: node_state where
  "empty_state = \<lparr>entity = None, label = Undefined, pos = Undefined\<rparr>"

text \<open>
  The body of the \<^verbatim>\<open>map\<close> callback of \<^verbatim>\<open>getBibliography\<close>: it gives the node a state
  object when it has none and looks the entity up when none is cached. The entity store
  is the function \<open>db\<close>; for an entry without a \<^verbatim>\<open>rid\<close> attribute the lookup is made with
  \<^verbatim>\<open>undefined\<close> and is taken to find nothing.
\<close>

definition resolve_entity :: "(string \<Rightarrow> entity option) \<Rightarrow> node \<Rightarrow> node" where
  "resolve_entity db ref =
     (let st = (case state ref of None \<Rightarrow> empty_state | Some st \<Rightarrow> st);
          st' = (case entity st of
                   None \<Rightarrow>
                     st\<lparr>entity := (case getAttribute ref ''rid'' of
                                     None \<Rightarrow> None
                                   | Some refId \<Rightarrow> db refId)\<rparr>
                 | Some e \<Rightarrow> st)
      in ref\<lparr>state := Some st'\<rparr>)"

text \<open>
  \<^verbatim>\<open>getBibliography\<close> returns the sorted array and, because the callback writes to the
  nodes themselves, changes the document: the second component is the session after
  the call.
\<close>

definition getBibliography :: "session \<Rightarrow> node list \<times> session" where
  "getBibliography s =
     (let doc = document s;
          db = entityDb s;
          refs = findAll_refs doc
      in (js_sort pos_comparefn (map (resolve_entity db) refs),
          s\<lparr>document := map (\<lambda>n. if is_ref_list_ref doc n then resolve_entity db n else n) doc\<rparr>))"

subsection \<open>_updateCitationLabels\<close>

text \<open>
  \<^verbatim>\<open>const label = xrefLabels[xref.id]; if (!xref.state) xref.state = {};
  xref.state.label = label\<close>.
\<close>

definition set_xref_label :: "(string \<rightharpoonup> string) \<Rightarrow> node \<Rightarrow> node" where
  "set_xref_label xrefLabels xref =
     (let st = (case state xref of None \<Rightarrow> empty_state | Some st \<Rightarrow> st)
      in xref\<lparr>state := Some (st\<lparr>label := js_get xrefLabels (node_id xref)\<rparr>)\<rparr>)"

text \<open>
  \<^verbatim>\<open>label || ''\<close>: \<^verbatim>\<open>undefined\<close> and the empty string are falsy, every other string and
  every function or object is truthy.
\<close>

definition or_empty :: "string js \<Rightarrow> string js" where
  "or_empty l =
     (case l of
        Undefined \<Rightarrow> Val []
      | Val v \<Rightarrow> if v = [] then Val [] else Val v
      | Inherited key \<Rightarrow> Inherited key)"

text \<open>
  \<^verbatim>\<open>const label = refLabels[ref.id]; ref.state.label = label || '';
  ref.state.pos = order[ref.id]\<close>, both read at the id of the \<^verbatim>\<open>ref\<close> node and both through
  the prototype when the object has no own property of that name.
\<close>

definition set_ref_label_pos :: "(string \<rightharpoonup> string) \<Rightarrow> (string \<rightharpoonup> nat) \<Rightarrow> node \<Rightarrow> node" where
  "set_ref_label_pos refLabels order ref =
     (let st = (case state ref of None \<Rightarrow> empty_state | Some st \<Rightarrow> st)
      in ref\<lparr>state := Some (st\<lparr>label := or_empty (js_get refLabels (node_id ref)),
                               pos := js_get order (node_id ref)\<rparr>)\<rparr>)"

text \<open>
  \<^verbatim>\<open>_updateCitationLabels\<close>. The two write-back passes assign to the state of each node
  they visit and to nothing else, so each is a map over the document that rewrites the
  selected nodes; the second one visits the array that \<^verbatim>\<open>getBibliography\<close> returned,
  which holds every \<^verbatim>\<open>ref-list > ref\<close> node once, in sorted order. When the document has
  no \<^verbatim>\<open>ref-list\<close>, \<^verbatim>\<open>refList.id\<close> raises a \<^verbatim>\<open>TypeError\<close> after the write-back and before
  the flow is started; the result is then the error alone.
\<close>

definition updateCitationLabels :: "labelGenerator \<Rightarrow> session \<Rightarrow> error + session" where
  "updateCitationLabels getLabel s =
     (let doc = document s;
          refList = find_ref_list doc;
          xrefs = findAll_bibr_xrefs doc
      in if length xrefs = 0 then Inr s
         else
           (case xrefs_forEach getLabel xrefs 1 Map.empty Map.empty Map.empty of
              Inl e \<Rightarrow> Inl e
            | Inr (p, order, refLabels, xrefLabels) \<Rightarrow>
                (let s1 = s\<lparr>document :=
                             map (\<lambda>n. if is_bibr_xref n then set_xref_label xrefLabels n else n) doc\<rparr>;
                     upd1 = recorded_keys (node_id ` set xrefs);
                     (refs, s2) = getBibliography s1;
                     doc2 = document s2;
                     s3 = s2\<lparr>document :=
                             map (\<lambda>n. if is_ref_list_ref doc2 n
                                      then set_ref_label_pos refLabels order n else n) doc2\<rparr>;
                     upd2 = upd1 \<union> recorded_keys (node_id ` set refs)
                 in (case refList of
                       None \<Rightarrow> Inl TypeError
                     | Some rl \<Rightarrow>
                         (let c = \<lparr>updated = recorded_keys {node_id rl} \<union> upd2\<rparr>
                          in Inr (s3\<lparr>dirty := insert ''document'' (dirty s3),
                                     change := Some c,
                                     flows := flows s3 @ [c]\<rparr>))))))"

subsection \<open>_onDocumentChange\<close>

text \<open>
  The operations of a document change. \<^verbatim>\<open>create\<close> and \<^verbatim>\<open>delete\<close> carry the data of the
  node (its type and, for an XML element, its attributes); \<^verbatim>\<open>set\<close> carries the path, the
  new value and the original value, which are strings or something else (\<open>None\<close>);
  every other type of operation takes the \<^verbatim>\<open>default\<close> branch.
\<close>

record node_data =
  data_type :: string
  data_attributes :: "(string \<times> string) list option"

datatype operation =
  Create node_data
| Delete node_data
| Set "string list" "string option" "string option"
| Other

text \<open>\<^verbatim>\<open>path[i]\<close>, which is \<^verbatim>\<open>undefined\<close> beyond the end of the array.\<close>

definition path_at :: "string list \<Rightarrow> nat \<Rightarrow> string option" where
  "path_at path i = (if i < length path then Some (path ! i) else None)"

definition is_bibr_data :: "node_data \<Rightarrow> bool" where
  "is_bibr_data v \<longleftrightarrow>
     data_type v = ''xref'' \<and>
     (case data_attributes v of None \<Rightarrow> False | Some a \<Rightarrow> map_of a ''ref-type'' = Some ''bibr'')"

text \<open>The body of the \<^verbatim>\<open>switch\<close>: whether this operation sets \<^verbatim>\<open>needsUpdate\<close>.\<close>

fun op_needsUpdate :: "document \<Rightarrow> operation \<Rightarrow> bool" where
  "op_needsUpdate doc (Delete v) = is_bibr_data v"
| "op_needsUpdate doc (Create v) = is_bibr_data v"
| "op_needsUpdate doc (Set path val original) =
     (if path_at path 1 = Some ''attributes'' then
        (if path_at path 2 = Some ''ref-type'' \<and> (val = Some ''bibr'' \<or> original = Some ''bibr'')
         then True
         else if path_at path 2 = Some ''rid'' then
           (case path_at path 0 of
              None \<Rightarrow> False
            | Some i \<Rightarrow>
                (case get doc i of
                   None \<Rightarrow> False
                 | Some node \<Rightarrow> getAttribute node ''ref-type'' = Some ''bibr''))
         else False)
      else False)"
| "op_needsUpdate doc Other = False"

text \<open>The \<^verbatim>\<open>for\<close> loop over \<^verbatim>\<open>change.ops\<close>, left at the first operation that sets the flag.\<close>

fun ops_loop :: "document \<Rightarrow> operation list \<Rightarrow> bool \<Rightarrow> bool" where
  "ops_loop doc [] needsUpdate = needsUpdate"
| "ops_loop doc (op # ops) needsUpdate =
     (let needsUpdate' = (needsUpdate \<or> op_needsUpdate doc op)
      in if needsUpdate' then needsUpdate' else ops_loop doc ops needsUpdate')"

text \<open>
  \<^verbatim>\<open>_onDocumentChange\<close>: when the flag is set, \<^verbatim>\<open>setTimeout\<close> queues one more callback.
\<close>

definition onDocumentChange :: "session \<Rightarrow> operation list \<Rightarrow> session" where
  "onDocumentChange s ops =
     (if ops_loop (document s) ops False then s\<lparr>timers := timers s + 1\<rparr> else s)"

text \<open>
  The host runs one queued callback: it leaves the queue and calls
  \<^verbatim>\<open>_updateCitationLabels\<close> on the session as it is then.
\<close>

definition run_timer :: "labelGenerator \<Rightarrow> session \<Rightarrow> error + session" where
  "run_timer getLabel s =
     (if timers s = 0 then Inr s
      else updateCitationLabels getLabel (s\<lparr>timers := timers s - 1\<rparr>))"

section \<open>What the claims speak of\<close>

subsection \<open>Identifiers, ranks and labels\<close>

text \<open>
  The identifiers a marker lists, in the order it lists them, and the identifiers of a
  sequence of markers, read marker by marker.
\<close>

definition rids_of :: "node \<Rightarrow> string list" where
  "rids_of n = (case getAttribute n ''rid'' of None \<Rightarrow> [] | Some rid \<Rightarrow> split CHR '' '' rid)"

definition all_rids :: "node list \<Rightarrow> string list" where
  "all_rids xrefs = concat (map rids_of xrefs)"

text \<open>
  The 1-based rank of the first occurrence of \<open>i\<close> in \<open>ids\<close>: one more than the number of
  distinct identifiers that occur before it.
\<close>

definition first_rank :: "string list \<Rightarrow> string \<Rightarrow> nat" where
  "first_rank ids i = Suc (length (remdups (takeWhile (\<lambda>x. x \<noteq> i) ids)))"


text \<open>
  The two identifiers that the object \<^verbatim>\<open>order\<close> cannot hold as a key like any other:
  storing \<^verbatim>\<open>hasOwnProperty\<close> disables the test that the loop makes, and \<^verbatim>\<open>__proto__\<close> cannot be
  stored.
\<close>

definition storable :: "string \<Rightarrow> bool" where
  "storable i \<longleftrightarrow> i \<noteq> ''hasOwnProperty'' \<and> i \<noteq> ''__proto__''"

text \<open>The loop invariant: after the identifiers \<open>seen\<close>, the counter and the two maps.\<close>

definition ranked :: "string list \<Rightarrow> nat \<Rightarrow> (string \<rightharpoonup> nat) \<Rightarrow> bool" where
  "ranked seen p order \<longleftrightarrow>
     p = Suc (card (set seen)) \<and> list_all storable seen \<and>
     (\<forall>i. order i = (if i \<in> set seen then Some (first_rank seen i) else None))"

definition labelled :: "labelGenerator \<Rightarrow> (string \<rightharpoonup> nat) \<Rightarrow> (string \<rightharpoonup> string) \<Rightarrow> bool" where
  "labelled getLabel order refLabels \<longleftrightarrow>
     (\<forall>i. refLabels i = map_option (\<lambda>q. getLabel (Position (Val q))) (order i))"

subsection \<open>The effect of a recompute on one node\<close>

text \<open>A function on nodes that changes nothing but the state.\<close>

definition same_shape :: "(node \<Rightarrow> node) \<Rightarrow> bool" where
  "same_shape f \<longleftrightarrow>
     (\<forall>n. node_id (f n) = node_id n \<and> node_type (f n) = node_type n \<and>
          attributes (f n) = attributes n \<and> parent (f n) = parent n)"

text \<open>What the three passes of \<open>updateCitationLabels\<close> together do to a node.\<close>

definition rewrite ::
  "document \<Rightarrow> (string \<Rightarrow> entity option) \<Rightarrow> (string \<rightharpoonup> nat) \<Rightarrow> (string \<rightharpoonup> string)
     \<Rightarrow> (string \<rightharpoonup> string) \<Rightarrow> node \<Rightarrow> node" where
  "rewrite doc db order refLabels xrefLabels n =
     (if is_ref_list_ref doc n then set_ref_label_pos refLabels order (resolve_entity db n)
      else if is_bibr_xref n then set_xref_label xrefLabels n
      else n)"

text \<open>The change that a recompute hands to the flow.\<close>

definition notified :: "document \<Rightarrow> node \<Rightarrow> document_change" where
  "notified doc rl =
     \<lparr>updated = recorded_keys {node_id rl} \<union>
        (recorded_keys (node_id ` set (findAll_bibr_xrefs doc)) \<union>
         recorded_keys (node_id ` set (findAll_refs doc)))\<rparr>"

text \<open>The label and the position stored at the node with a given id.\<close>

definition stored_label :: "document \<Rightarrow> string \<Rightarrow> string js" where
  "stored_label doc i =
     (case get doc i of
        None \<Rightarrow> Undefined
      | Some n \<Rightarrow> (case state n of None \<Rightarrow> Undefined | Some st \<Rightarrow> label st))"

definition stored_pos :: "document \<Rightarrow> string \<Rightarrow> nat js" where
  "stored_pos doc i = (case get doc i of None \<Rightarrow> Undefined | Some n \<Rightarrow> state_pos n)"

subsection \<open>A label generator and documents to run the code on\<close>

text \<open>
  The label generator of the examples: \<^verbatim>\<open>String(n)\<close> for one value, which writes a position
  in decimal, and \<^verbatim>\<open>numbers.join(',')\<close> for an array, in which \<^verbatim>\<open>undefined\<close> is the empty
  string.
\<close>

function decimal :: "nat \<Rightarrow> string" where
  "decimal n =
     (if n < 10 then [''0123456789'' ! n]
      else decimal (n div 10) @ [''0123456789'' ! (n mod 10)])"
  by pat_completeness auto
termination
  by (relation "measure (\<lambda>n. n)") auto

declare decimal.simps [simp del]

fun join :: "string \<Rightarrow> string list \<Rightarrow> string" where
  "join sep [] = []"
| "join sep [x] = x"
| "join sep (x # y # ys) = x @ sep @ join sep (y # ys)"

fun js_string :: "nat js \<Rightarrow> string" where
  "js_string Undefined = ''undefined''"
| "js_string (Val n) = decimal n"
| "js_string (Inherited key) = inherited_string key"

fun js_join_string :: "nat js \<Rightarrow> string" where
  "js_join_string Undefined = []"
| "js_join_string v = js_string v"

fun number_label :: labelGenerator where
  "number_label (Position v) = js_string v"
| "number_label (Positions vs) = join '','' (map js_join_string vs)"

definition bibr_xref :: "string \<Rightarrow> string \<Rightarrow> node" where
  "bibr_xref i rid =
     \<lparr>node_id = i, node_type = ''xref'',
      attributes = [(''ref-type'', ''bibr''), (''rid'', rid)], parent = None, state = None\<rparr>"

definition ref_list :: "string \<Rightarrow> node" where
  "ref_list i =
     \<lparr>node_id = i, node_type = ''ref-list'', attributes = [], parent = None, state = None\<rparr>"

definition ref :: "string \<Rightarrow> string \<Rightarrow> string \<Rightarrow> node_state option \<Rightarrow> node" where
  "ref i rid p st =
     \<lparr>node_id = i, node_type = ''ref'', attributes = [(''rid'', rid)], parent = Some p, state = st\<rparr>"

definition session_of :: "document \<Rightarrow> session" where
  "session_of d =
     \<lparr>document = d, entityDb = Map.empty, timers = 0, dirty = {}, change = None, flows = []\<rparr>"


text \<open>
  A document in which the entries \<open>A\<close> and \<open>D\<close> of the \<^verbatim>\<open>ref-list\<close> have the ids that the
  markers list (\<open>D\<close> is listed by none).
\<close>

definition cited_document :: document where
  "cited_document =
     [bibr_xref ''x1'' ''B A'', bibr_xref ''x2'' ''A C'', ref_list ''rl'',
      ref ''A'' ''e1'' ''rl'' None, ref ''D'' ''e2'' ''rl'' None]"

text \<open>A marker that lists \<open>e1\<close>, and an entry whose \<^verbatim>\<open>rid\<close> attribute is \<open>e1\<close> and whose id is \<open>r1\<close>.\<close>

definition rid_keyed_document :: document where
  "rid_keyed_document =
     [bibr_xref ''x1'' ''e1'', ref_list ''rl'', ref ''r1'' ''e1'' ''rl'' None]"

text \<open>No marker, and an entry that still carries the label and position of an earlier run.\<close>

definition stale_document :: document where
  "stale_document =
     [ref_list ''rl'',
      ref ''r1'' ''e1'' ''rl'' (Some \<lparr>entity = None, label = Val ''1'', pos = Val 1\<rparr>)]"



text \<open>The same markers in documents with a \<^verbatim>\<open>ref-list\<close>.\<close>

definition method_named_document :: document where
  "method_named_document =
     [bibr_xref ''x1'' ''hasOwnProperty A'', ref_list ''rl'', ref ''A'' ''e1'' ''rl'' None]"


text \<open>An entry with the id \<^verbatim>\<open>constructor\<close> that no marker lists.\<close>

definition constructor_document :: document where
  "constructor_document =
     [bibr_xref ''x1'' ''A'', ref_list ''rl'', ref ''constructor'' ''e1'' ''rl'' None]"



text \<open>
  One marker that lists \<open>r1\<close> and then \<open>r2\<close>, and a \<^verbatim>\<open>ref-list\<close> that holds \<open>r2\<close>, the uncited
  \<open>rD\<close> and \<open>r1\<close>, in this order.
\<close>

definition unsorted_document :: document where
  "unsorted_document =
     [bibr_xref ''x1'' ''r1 r2'', ref_list ''rl'',
      ref ''r2'' ''e2'' ''rl'' None, ref ''rD'' ''e3'' ''rl'' None, ref ''r1'' ''e1'' ''rl'' None]"

text \<open>A citation marker and a cross-reference to a figure.\<close>

definition fig_xref :: node where
  "fig_xref =
     \<lparr>node_id = ''x3'', node_type = ''xref'',
      attributes = [(''ref-type'', ''fig''), (''rid'', ''f1'')], parent = None, state = None\<rparr>"

definition mixed_document :: document where
  "mixed_document = [bibr_xref ''x1'' ''A'', fig_xref, ref_list ''rl'']"

definition create_citation :: operation where
  "create_citation =
     Create \<lparr>data_type = ''xref'',
             data_attributes = Some [(''ref-type'', ''bibr''), (''rid'', ''A'')]\<rparr>"

subsection \<open>Reading a result\<close>

definition label_after :: "error + session \<Rightarrow> string \<Rightarrow> error + string js" where
  "label_after r i = (case r of Inl e \<Rightarrow> Inl e | Inr s \<Rightarrow> Inr (stored_label (document s) i))"

definition pos_after :: "error + session \<Rightarrow> string \<Rightarrow> error + nat js" where
  "pos_after r i = (case r of Inl e \<Rightarrow> Inl e | Inr s \<Rightarrow> Inr (stored_pos (document s) i))"

definition flows_after :: "error + session \<Rightarrow> error + nat" where
  "flows_after r = (case r of Inl e \<Rightarrow> Inl e | Inr s \<Rightarrow> Inr (length (flows s)))"

text \<open>The ids and stored positions of what \<open>getBibliography\<close> returns, in the order returned.\<close>

definition bibliography_after :: "error + session \<Rightarrow> error + (string \<times> nat js) list" where
  "bibliography_after r =
     (case r of
        Inl e \<Rightarrow> Inl e
      | Inr s \<Rightarrow> Inr (map (\<lambda>n. (node_id n, state_pos n)) (fst (getBibliography s))))"

text \<open>The array \<^verbatim>\<open>numbers\<close> that the inner loop leaves.\<close>

definition numbers_after ::
  "error + (nat \<times> (string \<rightharpoonup> nat) \<times> (string \<rightharpoonup> string) \<times> nat js list) \<Rightarrow> error + nat js list" where
  "numbers_after r =
     (case r of Inl e \<Rightarrow> Inl e | Inr (p, order, refLabels, numbers) \<Rightarrow> Inr numbers)"

text \<open>What \<^verbatim>\<open>order[i]\<close> reads for each \<open>i\<close> of a list, once the outer loop is through.\<close>

definition order_after ::
  "error + (nat \<times> (string \<rightharpoonup> nat) \<times> (string \<rightharpoonup> string) \<times> (string \<rightharpoonup> string))
     \<Rightarrow> string list \<Rightarrow> error + nat js list" where
  "order_after r ids =
     (case r of Inl e \<Rightarrow> Inl e | Inr (p, order, refLabels, xrefLabels) \<Rightarrow> Inr (map (js_get order) ids))"


subsection \<open>The classifier as the specification words it\<close>

text \<open>
  The decision rule of the specification: a batch is relevant when some operation
  matches one of three rules. A \<^verbatim>\<open>set\<close> addresses the attribute \<open>name\<close> of a node when its
  path is the id of the node, \<^verbatim>\<open>attributes\<close> and \<open>name\<close>.
\<close>

definition sets_attribute :: "string list \<Rightarrow> string \<Rightarrow> bool" where
  "sets_attribute path name \<longleftrightarrow>
     path_at path 1 = Some ''attributes'' \<and> path_at path 2 = Some name"

definition data_attribute :: "node_data \<Rightarrow> string \<Rightarrow> string option" where
  "data_attribute v name =
     (case data_attributes v of None \<Rightarrow> None | Some a \<Rightarrow> map_of a name)"

text \<open>Rule 1: a cross-reference whose reference kind is the sentinel is created or deleted.\<close>

fun spec_rule1 :: "operation \<Rightarrow> bool" where
  "spec_rule1 (Create v) = (data_type v = ''xref'' \<and> data_attribute v ''ref-type'' = Some ''bibr'')"
| "spec_rule1 (Delete v) = (data_type v = ''xref'' \<and> data_attribute v ''ref-type'' = Some ''bibr'')"
| "spec_rule1 _ = False"

text \<open>Rule 2: the reference kind is set, and its old or its new value is the sentinel.\<close>

fun spec_rule2 :: "operation \<Rightarrow> bool" where
  "spec_rule2 (Set path val original) =
     (sets_attribute path ''ref-type'' \<and> (val = Some ''bibr'' \<or> original = Some ''bibr''))"
| "spec_rule2 _ = False"

text \<open>Rule 3: \<^verbatim>\<open>rid\<close> is set on a node whose reference kind is now the sentinel.\<close>

definition current_ref_type :: "document \<Rightarrow> string list \<Rightarrow> string option" where
  "current_ref_type doc path =
     (case path_at path 0 of
        None \<Rightarrow> None
      | Some i \<Rightarrow> (case get doc i of None \<Rightarrow> None | Some node \<Rightarrow> getAttribute node ''ref-type''))"

fun spec_rule3 :: "document \<Rightarrow> operation \<Rightarrow> bool" where
  "spec_rule3 doc (Set path val original) =
     (sets_attribute path ''rid'' \<and> current_ref_type doc path = Some ''bibr'')"
| "spec_rule3 doc _ = False"

definition spec_isRelevant :: "document \<Rightarrow> operation list \<Rightarrow> bool" where
  "spec_isRelevant doc ops \<longleftrightarrow>
     (\<exists>op \<in> set ops. spec_rule1 op \<or> spec_rule2 op \<or> spec_rule3 doc op)"

section \<open>Properties of the two iterations\<close>

subsection \<open>Ranks of first occurrences\<close>

lemma first_rank_append: "i \<in> set xs \<Longrightarrow> first_rank (xs @ ys) i = first_rank xs i"
  by (simp add: first_rank_def takeWhile_append1) 

lemma first_rank_new: "i \<notin> set xs \<Longrightarrow> first_rank (xs @ i # ys) i = Suc (card (set xs))"
proof -
  assume "i \<notin> set xs"
  then have "takeWhile (\<lambda>x. x \<noteq> i) (xs @ i # ys) = xs"
    by (induction xs) auto
  then show ?thesis
    by (simp add: first_rank_def length_remdups_card_conv)
qed

lemma ranked_empty: "ranked [] 1 Map.empty"
  by (simp add: ranked_def)

lemma ranked_step_old:
  "ranked seen p order \<Longrightarrow> order i = Some q \<Longrightarrow>
   ranked (seen @ [i]) p order \<and> q = first_rank (seen @ [i]) i"
  by (auto simp: ranked_def first_rank_append insert_absorb list_all_iff split: if_splits)

lemma ranked_step_new:
  "ranked seen p order \<Longrightarrow> storable i \<Longrightarrow> order i = None \<Longrightarrow>
   ranked (seen @ [i]) (p + 1) (order(i \<mapsto> p)) \<and> p = first_rank (seen @ [i]) i"
  by (auto simp: ranked_def first_rank_append first_rank_new split: if_splits)



subsection \<open>Reads, writes and the own-property test on the order map\<close>

lemma hasOwnProperty_ranked:
  assumes "ranked seen p order"
  shows "hasOwnProperty order i = Inr (order i \<noteq> None)"
proof -
  have "''hasOwnProperty'' \<notin> set seen"
    using assms by (auto simp: ranked_def list_all_iff storable_def)
  then have "order ''hasOwnProperty'' = None"
    using assms by (simp add: ranked_def)
  then show ?thesis
    by (simp add: hasOwnProperty_def)
qed

lemma js_set_storable: "storable i \<Longrightarrow> js_set m i v = m(i \<mapsto> v)"
  by (simp add: js_set_def storable_def)

lemma js_get_own: "m i = Some v \<Longrightarrow> js_get m i = Val v"
  by (simp add: js_get_def)

lemma js_get_none: "m i = None \<Longrightarrow> i \<notin> set proto_names \<Longrightarrow> js_get m i = Undefined"
  by (simp add: js_get_def)

subsection \<open>The inner and the outer loop\<close>

lemma rids_forEach_ranked:
  "ranked seen p order \<Longrightarrow> labelled g order refLabels \<Longrightarrow> list_all storable ids \<Longrightarrow>
   \<exists>p' order' refLabels'.
     rids_forEach g ids p order refLabels numbers =
       Inr (p', order', refLabels', numbers @ map (\<lambda>i. Val (first_rank (seen @ ids) i)) ids) \<and>
     ranked (seen @ ids) p' order' \<and> labelled g order' refLabels'"
proof (induction ids arbitrary: seen p order refLabels numbers)
  case Nil
  then show ?case by simp
next
  case (Cons i ids)
  have same: "first_rank (seen @ i # ids) i = first_rank (seen @ [i]) i"
    using first_rank_append [of i "seen @ [i]" ids] by simp
  have st: "storable i" "list_all storable ids"
    using Cons.prems(3) by simp_all
  have test: "hasOwnProperty order i = Inr (order i \<noteq> None)"
    using Cons.prems(1) by (rule hasOwnProperty_ranked)
  show ?case
  proof (cases "order i")
    case None
    have r: "ranked (seen @ [i]) (p + 1) (order(i \<mapsto> p))" and q: "p = first_rank (seen @ [i]) i"
      using ranked_step_new [OF Cons.prems(1) st(1) None] by blast+
    have l: "labelled g (order(i \<mapsto> p)) (refLabels(i \<mapsto> g (Position (Val p))))"
      using Cons.prems(2) by (simp add: labelled_def)
    obtain p' order' refLabels' where
      run: "rids_forEach g ids (p + 1) (order(i \<mapsto> p)) (refLabels(i \<mapsto> g (Position (Val p))))
              (numbers @ [Val p]) =
            Inr (p', order', refLabels',
              (numbers @ [Val p]) @ map (\<lambda>j. Val (first_rank ((seen @ [i]) @ ids) j)) ids)"
      and inv: "ranked ((seen @ [i]) @ ids) p' order'" "labelled g order' refLabels'"
      using Cons.IH [OF r l st(2), of "numbers @ [Val p]"] by blast
    have w: "js_set order i p = order(i \<mapsto> p)"
      "js_set refLabels i (g (Position (Val p))) = refLabels(i \<mapsto> g (Position (Val p)))"
      using st(1) by (simp_all add: js_set_storable)
    have rd: "js_get (order(i \<mapsto> p)) i = Val p"
      by (simp add: js_get_def)
    have step: "rids_forEach g (i # ids) p order refLabels numbers =
        rids_forEach g ids (p + 1) (order(i \<mapsto> p)) (refLabels(i \<mapsto> g (Position (Val p))))
          (numbers @ [Val p])"
      using None test by (simp add: Let_def w rd)
    have "Val p = (Val (first_rank (seen @ i # ids) i) :: nat js)"
      using same q by simp
    then have "rids_forEach g (i # ids) p order refLabels numbers =
            Inr (p', order', refLabels',
              numbers @ map (\<lambda>j. Val (first_rank (seen @ i # ids) j)) (i # ids))"
      unfolding step run by simp
    with inv show ?thesis by simp
  next
    case (Some q)
    have r: "ranked (seen @ [i]) p order" and q: "q = first_rank (seen @ [i]) i"
      using ranked_step_old [OF Cons.prems(1) Some] by blast+
    obtain p' order' refLabels' where
      run: "rids_forEach g ids p order refLabels (numbers @ [Val q]) =
            Inr (p', order', refLabels',
              (numbers @ [Val q]) @ map (\<lambda>j. Val (first_rank ((seen @ [i]) @ ids) j)) ids)"
      and inv: "ranked ((seen @ [i]) @ ids) p' order'" "labelled g order' refLabels'"
      using Cons.IH [OF r Cons.prems(2) st(2), of "numbers @ [Val q]"] by blast
    have rd: "js_get order i = Val q"
      using Some by (rule js_get_own)
    have step: "rids_forEach g (i # ids) p order refLabels numbers =
        rids_forEach g ids p order refLabels (numbers @ [Val q])"
      using Some test by (simp add: rd)
    have "Val q = (Val (first_rank (seen @ i # ids) i) :: nat js)"
      using same q by simp
    then have "rids_forEach g (i # ids) p order refLabels numbers =
            Inr (p', order', refLabels',
              numbers @ map (\<lambda>j. Val (first_rank (seen @ i # ids) j)) (i # ids))"
      unfolding step run by simp
    with inv show ?thesis by simp
  qed
qed




lemma xrefs_forEach_order:
  assumes "ranked seen p order" and "labelled g order refLabels"
    and "\<forall>x \<in> set xrefs. getAttribute x ''rid'' \<noteq> None"
    and "list_all storable (all_rids xrefs)"
  shows "\<exists>p' order' refLabels' xrefLabels'.
     xrefs_forEach g xrefs p order refLabels xrefLabels = Inr (p', order', refLabels', xrefLabels') \<and>
     ranked (seen @ all_rids xrefs) p' order' \<and> labelled g order' refLabels'"
  using assms
proof (induction xrefs arbitrary: seen p order refLabels xrefLabels)
  case Nil
  then show ?case by (simp add: all_rids_def)
next
  case (Cons x xs)
  from Cons.prems(3) obtain rid where rid: "getAttribute x ''rid'' = Some rid"
    by auto
  then have ids: "rids_of x = split CHR '' '' rid"
    by (simp add: rids_of_def)
  have st: "list_all storable (rids_of x)" "list_all storable (all_rids xs)"
    using Cons.prems(4) by (simp_all add: all_rids_def)
  obtain p1 order1 refLabels1 numbers where
    inner: "rids_forEach g (rids_of x) p order refLabels [] = Inr (p1, order1, refLabels1, numbers)"
    and inv1: "ranked (seen @ rids_of x) p1 order1" "labelled g order1 refLabels1"
    using rids_forEach_ranked [OF Cons.prems(1,2) st(1), of "[]"] by blast
  have rest: "\<forall>y \<in> set xs. getAttribute y ''rid'' \<noteq> None"
    using Cons.prems(3) by simp
  have all: "seen @ all_rids (x # xs) = (seen @ rids_of x) @ all_rids xs"
    by (simp add: all_rids_def)
  let ?xl = "js_set xrefLabels (node_id x) (g (Positions numbers))"
  obtain p' order' refLabels' xrefLabels' where
    outer: "xrefs_forEach g xs p1 order1 refLabels1 ?xl = Inr (p', order', refLabels', xrefLabels')"
    and inv: "ranked ((seen @ rids_of x) @ all_rids xs) p' order'" "labelled g order' refLabels'"
    using Cons.IH [OF inv1 rest st(2), of ?xl] by blast
  have "xrefs_forEach g (x # xs) p order refLabels xrefLabels =
               Inr (p', order', refLabels', xrefLabels')"
    using rid inner outer ids by simp
  with inv show ?case
    unfolding all by blast
qed

subsection \<open>State writes leave the shape of the document alone\<close>

lemma same_shape_set_xref_label: "same_shape (\<lambda>n. if P n then set_xref_label m n else n)"
  by (simp add: same_shape_def set_xref_label_def)

lemma same_shape_resolve_entity: "same_shape (\<lambda>n. if P n then resolve_entity db n else n)"
  by (simp add: same_shape_def resolve_entity_def Let_def)

lemma same_shape_set_ref_label_pos: "same_shape (\<lambda>n. if P n then set_ref_label_pos m order n else n)"
  by (simp add: same_shape_def set_ref_label_pos_def)

lemma find_map_same: "(\<And>n. P (f n) = P n) \<Longrightarrow> find P (map f d) = map_option f (find P d)"
  by (induction d) auto

lemma get_map: "same_shape f \<Longrightarrow> get (map f d) i = map_option f (get d i)"
  unfolding get_def by (rule find_map_same) (simp add: same_shape_def)

lemma is_bibr_xref_shape: "same_shape f \<Longrightarrow> is_bibr_xref (f n) = is_bibr_xref n"
  by (simp add: same_shape_def is_bibr_xref_def getAttribute_def)

lemma is_ref_list_ref_map: "same_shape f \<Longrightarrow> is_ref_list_ref (map f d) n = is_ref_list_ref d n"
  by (auto simp: is_ref_list_ref_def get_map same_shape_def split: option.splits)

lemma is_ref_list_ref_shape: "same_shape f \<Longrightarrow> is_ref_list_ref d (f n) = is_ref_list_ref d n"
  by (simp add: is_ref_list_ref_def same_shape_def)

lemma find_ref_list_map: "same_shape f \<Longrightarrow> find_ref_list (map f d) = map_option f (find_ref_list d)"
  unfolding find_ref_list_def by (rule find_map_same) (simp add: same_shape_def)

lemma findAll_bibr_xrefs_map:
  "same_shape f \<Longrightarrow> findAll_bibr_xrefs (map f d) = map f (findAll_bibr_xrefs d)"
  by (simp add: findAll_bibr_xrefs_def filter_map o_def is_bibr_xref_shape)



lemma xrefs_forEach_map:
  "same_shape f \<Longrightarrow>
   xrefs_forEach g (map f xs) p order refLabels xrefLabels =
   xrefs_forEach g xs p order refLabels xrefLabels"
proof (induction xs arbitrary: p order refLabels xrefLabels)
  case Nil
  then show ?case by simp
next
  case (Cons x xs)
  have "getAttribute (f x) ''rid'' = getAttribute x ''rid''" "node_id (f x) = node_id x"
    using Cons.prems by (simp_all add: getAttribute_def same_shape_def)
  then show ?case
    using Cons by (simp split: option.splits prod.splits sum.splits)
qed

lemma not_both: "is_ref_list_ref doc n \<Longrightarrow> \<not> is_bibr_xref n"
  by (auto simp: is_ref_list_ref_def is_bibr_xref_def)

lemma same_shape_rewrite: "same_shape (rewrite doc db order refLabels xrefLabels)"
  by (simp add: same_shape_def rewrite_def set_ref_label_pos_def resolve_entity_def
      set_xref_label_def Let_def)

subsection \<open>The sort permutes\<close>

lemma set_insertion_step: "set (insertion_step c xs x) = insert x (set xs)"
proof -
  have "set (rev xs) = set (takeWhile (\<lambda>t. c t x > 0) (rev xs)) \<union> set (dropWhile (\<lambda>t. c t x > 0) (rev xs))"
    by (metis set_append takeWhile_dropWhile_id)
  then show ?thesis
    by (auto simp: insertion_step_def)
qed

lemma mset_insertion_step: "mset (insertion_step c xs x) = add_mset x (mset xs)"
proof -
  have "mset (rev xs) = mset (takeWhile (\<lambda>t. c t x > 0) (rev xs)) + mset (dropWhile (\<lambda>t. c t x > 0) (rev xs))"
    by (metis mset_append takeWhile_dropWhile_id)
  then show ?thesis
    by (simp add: insertion_step_def)
qed

lemma mset_foldl_insertion_step:
  "mset (foldl (insertion_step c) acc xs) = mset acc + mset xs"
  by (induction xs arbitrary: acc) (simp_all add: mset_insertion_step)

lemma mset_js_sort: "mset (js_sort c xs) = mset xs"
  by (simp add: js_sort_def mset_foldl_insertion_step)

lemma set_js_sort: "set (js_sort c xs) = set xs"
  by (metis mset_js_sort set_mset_mset)

lemma getBibliography_document:
  "document (snd (getBibliography s)) =
     map (\<lambda>n. if is_ref_list_ref (document s) n then resolve_entity (entityDb s) n else n) (document s)"
  by (simp add: getBibliography_def Let_def)

lemma getBibliography_ids:
  "node_id ` set (fst (getBibliography s)) = node_id ` set (findAll_refs (document s))"
  by (simp add: getBibliography_def Let_def set_js_sort image_image resolve_entity_def)

lemma getBibliography_rest:
  "snd (getBibliography s) = s\<lparr>document := document (snd (getBibliography s))\<rparr>"
  by (simp add: getBibliography_def Let_def)

subsection \<open>The result of a recompute\<close>

lemma three_passes:
  fixes doc :: document and xrefLabels :: "string \<rightharpoonup> string" and db :: "string \<Rightarrow> entity option"
  defines "doc1 \<equiv> map (\<lambda>n. if is_bibr_xref n then set_xref_label xrefLabels n else n) doc"
  defines "doc2 \<equiv> map (\<lambda>n. if is_ref_list_ref doc1 n then resolve_entity db n else n) doc1"
  shows "map (\<lambda>n. if is_ref_list_ref doc2 n then set_ref_label_pos refLabels order n else n) doc2 =
         map (rewrite doc db order refLabels xrefLabels) doc"
proof -
  have r1: "\<And>n. is_ref_list_ref doc1 n = is_ref_list_ref doc n"
    unfolding doc1_def by (rule is_ref_list_ref_map) (rule same_shape_set_xref_label)
  have r2: "\<And>n. is_ref_list_ref doc2 n = is_ref_list_ref doc n"
    unfolding doc2_def using r1 is_ref_list_ref_map [OF same_shape_resolve_entity] by simp
  have s1: "\<And>n. is_ref_list_ref doc (set_xref_label xrefLabels n) = is_ref_list_ref doc n"
    by (simp add: is_ref_list_ref_def set_xref_label_def)
  have s2: "\<And>n. is_ref_list_ref doc (resolve_entity db n) = is_ref_list_ref doc n"
    by (simp add: is_ref_list_ref_def resolve_entity_def Let_def)
  let ?A = "\<lambda>n. if is_bibr_xref n then set_xref_label xrefLabels n else n"
  let ?B = "\<lambda>n. if is_ref_list_ref doc n then resolve_entity db n else n"
  let ?C = "\<lambda>n. if is_ref_list_ref doc n then set_ref_label_pos refLabels order n else n"
  have e2: "doc2 = map ?B (map ?A doc)"
    unfolding doc2_def by (simp add: r1) (simp add: doc1_def)
  have pointwise: "?C (?B (?A n)) = rewrite doc db order refLabels xrefLabels n" for n
    by (cases "is_ref_list_ref doc n"; cases "is_bibr_xref n")
       (simp_all add: s1 s2 rewrite_def not_both)
  have "map (\<lambda>n. if is_ref_list_ref doc2 n then set_ref_label_pos refLabels order n else n) doc2 =
        map ?C doc2"
    by (simp add: r2)
  also have "\<dots> = map (\<lambda>n. ?C (?B (?A n))) doc"
    unfolding e2 by (simp add: o_def)
  also have "\<dots> = map (rewrite doc db order refLabels xrefLabels) doc"
    using pointwise by presburger
  finally show ?thesis .
qed

lemma updateCitationLabels_empty:
  "findAll_bibr_xrefs (document s) = [] \<Longrightarrow> updateCitationLabels g s = Inr s"
  by (simp add: updateCitationLabels_def)

lemma updateCitationLabels_run:
  assumes ne: "findAll_bibr_xrefs (document s) \<noteq> []"
    and c: "xrefs_forEach g (findAll_bibr_xrefs (document s)) 1 Map.empty Map.empty Map.empty =
              Inr (p, order, refLabels, xrefLabels)"
    and rl: "find_ref_list (document s) = Some rl"
  shows "updateCitationLabels g s =
     Inr (s\<lparr>document := map (rewrite (document s) (entityDb s) order refLabels xrefLabels) (document s),
            dirty := insert ''document'' (dirty s),
            change := Some (notified (document s) rl),
            flows := flows s @ [notified (document s) rl]\<rparr>)"
proof -
  let ?doc1 = "map (\<lambda>n. if is_bibr_xref n then set_xref_label xrefLabels n else n) (document s)"
  let ?s1 = "s\<lparr>document := ?doc1\<rparr>"
  have ids: "node_id ` set (fst (getBibliography ?s1)) = node_id ` set (findAll_refs (document s))"
  proof -
    have "findAll_refs ?doc1 = map (\<lambda>n. if is_bibr_xref n then set_xref_label xrefLabels n else n) (findAll_refs (document s))"
    proof -
      have a: "is_ref_list_ref ?doc1 n = is_ref_list_ref (document s) n" for n
        by (rule is_ref_list_ref_map) (rule same_shape_set_xref_label)
      have b: "is_ref_list_ref (document s) (if is_bibr_xref n then set_xref_label xrefLabels n else n) =
               is_ref_list_ref (document s) n" for n
        by (simp add: is_ref_list_ref_def set_xref_label_def)
      show ?thesis
        by (simp add: findAll_refs_def filter_map o_def a b)
    qed
    moreover have "map node_id (map (\<lambda>n. if is_bibr_xref n then set_xref_label xrefLabels n else n) ns) =
                   map node_id ns" for ns
      by (simp add: set_xref_label_def)
    ultimately have "map node_id (findAll_refs ?doc1) = map node_id (findAll_refs (document s))"
      by simp
    then have "set (map node_id (findAll_refs ?doc1)) = set (map node_id (findAll_refs (document s)))"
      by (rule arg_cong)
    then show ?thesis
      by (simp add: getBibliography_ids)
  qed
  obtain refs s2 where gb: "getBibliography ?s1 = (refs, s2)"
    by (cases "getBibliography ?s1")
  have s2: "s2 = ?s1\<lparr>document := map (\<lambda>n. if is_ref_list_ref ?doc1 n then resolve_entity (entityDb s) n else n) ?doc1\<rparr>"
    using gb by (simp add: getBibliography_def Let_def)
  have refs: "node_id ` set refs = node_id ` set (findAll_refs (document s))"
    using ids gb by simp
  have d3: "map (\<lambda>n. if is_ref_list_ref (document s2) n
                     then set_ref_label_pos refLabels order n else n) (document s2) =
            map (rewrite (document s) (entityDb s) order refLabels xrefLabels) (document s)"
    unfolding s2 by (simp del: map_map add: three_passes)
  have rest: "entityDb s2 = entityDb s" "timers s2 = timers s" "dirty s2 = dirty s"
    "change s2 = change s" "flows s2 = flows s" "session.more s2 = session.more s"
    unfolding s2 by simp_all
  have "updateCitationLabels g s =
     Inr (s2\<lparr>document := map (rewrite (document s) (entityDb s) order refLabels xrefLabels) (document s),
            dirty := insert ''document'' (dirty s),
            change := Some (notified (document s) rl),
            flows := flows s @ [notified (document s) rl]\<rparr>)"
    unfolding updateCitationLabels_def
    using ne c rl gb
    by (simp add: Let_def d3 rest notified_def refs)
  then show ?thesis
    unfolding s2 by simp
qed

lemma updateCitationLabels_cases:
  assumes "updateCitationLabels g s = Inr s'"
  shows "(findAll_bibr_xrefs (document s) = [] \<and> s' = s) \<or>
     (\<exists>p order refLabels xrefLabels rl.
        findAll_bibr_xrefs (document s) \<noteq> [] \<and>
        xrefs_forEach g (findAll_bibr_xrefs (document s)) 1 Map.empty Map.empty Map.empty =
              Inr (p, order, refLabels, xrefLabels) \<and>
        find_ref_list (document s) = Some rl)"
proof (cases "findAll_bibr_xrefs (document s) = []")
  case True
  with assms show ?thesis
    by (simp add: updateCitationLabels_empty)
next
  case False
  show ?thesis
  proof (cases "xrefs_forEach g (findAll_bibr_xrefs (document s)) 1 Map.empty Map.empty Map.empty")
    case (Inl e)
    have "updateCitationLabels g s = Inl e"
      unfolding updateCitationLabels_def using False Inl by (simp add: Let_def)
    with assms show ?thesis by simp
  next
    case (Inr r)
    obtain p order refLabels xrefLabels where r: "r = (p, order, refLabels, xrefLabels)"
      by (cases r)
    show ?thesis
    proof (cases "find_ref_list (document s)")
      case None
      have "updateCitationLabels g s = Inl TypeError"
        unfolding updateCitationLabels_def using False Inr r None
        by (simp add: Let_def split: prod.splits)
      with assms show ?thesis by simp
    next
      case (Some rl)
      with False Inr r show ?thesis
        by simp
    qed
  qed
qed



lemma stored_entry_labels:
  assumes r: "ranked ids p order" and l: "labelled g order refLabels"
    and n': "n' \<in> set (map (rewrite doc db order refLabels xrefLabels) doc)"
      "is_ref_list_ref doc n'"
  shows "\<exists>st. state n' = Some st \<and>
     (if node_id n' \<in> set ids
      then label st = Val (g (Position (Val (first_rank ids (node_id n'))))) \<and>
           pos st = Val (first_rank ids (node_id n'))
      else if node_id n' \<in> set proto_names
      then label st = Inherited (node_id n') \<and> pos st = Inherited (node_id n')
      else label st = Val [] \<and> pos st = Undefined)"
proof -
  from n' obtain n where n: "n \<in> set doc" "n' = rewrite doc db order refLabels xrefLabels n"
    by auto
  have sh: "same_shape (rewrite doc db order refLabels xrefLabels)"
    by (rule same_shape_rewrite)
  have x: "is_ref_list_ref doc n"
    using n'(2) n(2) is_ref_list_ref_shape [OF sh] by simp
  have i: "node_id n' = node_id n" "node_id (resolve_entity db n) = node_id n"
    using sh n(2) by (simp_all add: same_shape_def resolve_entity_def Let_def)
  have o: "order (node_id n) = (if node_id n \<in> set ids then Some (first_rank ids (node_id n)) else None)"
    using r by (simp add: ranked_def)
  have rl: "refLabels (node_id n) = map_option (\<lambda>q. g (Position (Val q))) (order (node_id n))"
    using l by (simp add: labelled_def)
  show ?thesis
    using n(2) x i o rl
    by (simp add: rewrite_def set_ref_label_pos_def or_empty_def js_get_def)
qed

lemma recompute_returns:
  assumes rid: "\<forall>x \<in> set (findAll_bibr_xrefs (document s)). getAttribute x ''rid'' \<noteq> None"
    and st: "list_all storable (all_rids (findAll_bibr_xrefs (document s)))"
    and rl: "find_ref_list (document s) = Some rl"
    and ne: "findAll_bibr_xrefs (document s) \<noteq> []"
  shows "\<exists>p order refLabels xrefLabels.
     xrefs_forEach g (findAll_bibr_xrefs (document s)) 1 Map.empty Map.empty Map.empty =
       Inr (p, order, refLabels, xrefLabels) \<and>
     ranked (all_rids (findAll_bibr_xrefs (document s))) p order \<and>
     labelled g order refLabels \<and>
     updateCitationLabels g s =
       Inr (s\<lparr>document := map (rewrite (document s) (entityDb s) order refLabels xrefLabels) (document s),
              dirty := insert ''document'' (dirty s),
              change := Some (notified (document s) rl),
              flows := flows s @ [notified (document s) rl]\<rparr>)"
proof -
  have "labelled g Map.empty Map.empty"
    by (simp add: labelled_def)
  from xrefs_forEach_order [OF ranked_empty this rid st, of Map.empty]
  obtain p order refLabels xrefLabels where
    run: "xrefs_forEach g (findAll_bibr_xrefs (document s)) 1 Map.empty Map.empty Map.empty =
            Inr (p, order, refLabels, xrefLabels)"
    and inv: "ranked (all_rids (findAll_bibr_xrefs (document s))) p order" "labelled g order refLabels"
    by auto
  from updateCitationLabels_run [OF ne run rl] run inv show ?thesis
    by blast
qed


subsection \<open>Running the recompute again\<close>

lemma set_xref_label_idem: "set_xref_label m (set_xref_label m n) = set_xref_label m n"
  by (simp add: set_xref_label_def)

lemma set_ref_resolve_idem:
  "set_ref_label_pos m order (resolve_entity db (set_ref_label_pos m order (resolve_entity db n))) =
   set_ref_label_pos m order (resolve_entity db n)"
  by (cases "state n")
     (auto simp: set_ref_label_pos_def resolve_entity_def Let_def getAttribute_def empty_state_def
           split: option.splits)

lemma rewrite_idem:
  fixes doc :: document and db :: "string \<Rightarrow> entity option" and order :: "string \<rightharpoonup> nat"
    and refLabels xrefLabels :: "string \<rightharpoonup> string"
  defines "R \<equiv> rewrite doc db order refLabels xrefLabels"
  shows "rewrite (map R doc) db order refLabels xrefLabels (R n) = R n"
proof -
  have sh: "same_shape R"
    unfolding R_def by (rule same_shape_rewrite)
  have a: "is_ref_list_ref (map R doc) (R n) = is_ref_list_ref doc n"
    using is_ref_list_ref_map [OF sh] is_ref_list_ref_shape [OF sh] by simp
  have b: "is_bibr_xref (R n) = is_bibr_xref n"
    using is_bibr_xref_shape [OF sh] by simp
  show ?thesis
  proof (cases "is_ref_list_ref doc n")
    case True
    then have "R n = set_ref_label_pos refLabels order (resolve_entity db n)"
      by (simp add: R_def rewrite_def)
    with True a show ?thesis
      by (simp add: rewrite_def set_ref_resolve_idem)
  next
    case False
    show ?thesis
    proof (cases "is_bibr_xref n")
      case True
      with False have "R n = set_xref_label xrefLabels n"
        by (simp add: R_def rewrite_def)
      with True False a b show ?thesis
        by (simp add: rewrite_def set_xref_label_idem)
    next
      case n: False
      with False have "R n = n"
        by (simp add: R_def rewrite_def)
      with n False a b show ?thesis
        by (simp add: rewrite_def)
    qed
  qed
qed

lemma recompute_twice:
  assumes ne: "findAll_bibr_xrefs (document s) \<noteq> []"
    and c: "xrefs_forEach g (findAll_bibr_xrefs (document s)) 1 Map.empty Map.empty Map.empty =
              Inr (p, order, refLabels, xrefLabels)"
    and rl: "find_ref_list (document s) = Some rl"
    and s': "updateCitationLabels g s = Inr s'"
  shows "\<exists>s''. updateCitationLabels g s' = Inr s'' \<and> document s'' = document s' \<and>
     flows s'' = flows s' @ [notified (document s') (rewrite (document s) (entityDb s) order refLabels xrefLabels rl)] \<and>
     timers s'' = timers s' \<and>
     xrefs_forEach g (findAll_bibr_xrefs (document s')) 1 Map.empty Map.empty Map.empty =
       Inr (p, order, refLabels, xrefLabels)"
proof -
  let ?R = "rewrite (document s) (entityDb s) order refLabels xrefLabels"
  have sh: "same_shape ?R"
    by (rule same_shape_rewrite)
  from updateCitationLabels_run [OF ne c rl] s'
  have s'_eq: "s' = s\<lparr>document := map ?R (document s),
            dirty := insert ''document'' (dirty s),
            change := Some (notified (document s) rl),
            flows := flows s @ [notified (document s) rl]\<rparr>"
    by simp
  then have d: "document s' = map ?R (document s)" and db: "entityDb s' = entityDb s"
    by simp_all
  have xs: "findAll_bibr_xrefs (document s') = map ?R (findAll_bibr_xrefs (document s))"
    unfolding d by (rule findAll_bibr_xrefs_map) (rule sh)
  then have ne': "findAll_bibr_xrefs (document s') \<noteq> []"
    using ne by simp
  have c': "xrefs_forEach g (findAll_bibr_xrefs (document s')) 1 Map.empty Map.empty Map.empty =
              Inr (p, order, refLabels, xrefLabels)"
    unfolding xs using c xrefs_forEach_map [OF sh] by simp
  have rl': "find_ref_list (document s') = Some (?R rl)"
    unfolding d using rl find_ref_list_map [OF sh] by simp
  have "map (rewrite (document s') (entityDb s') order refLabels xrefLabels) (document s') =
        document s'"
    unfolding d db using rewrite_idem by (simp add: o_def)
  with updateCitationLabels_run [OF ne' c' rl'] c' show ?thesis
    by simp
qed




subsection \<open>The classifier\<close>

lemma op_needsUpdate_rules:
  "op_needsUpdate doc op \<longleftrightarrow> spec_rule1 op \<or> spec_rule2 op \<or> spec_rule3 doc op"
proof (cases op)
  case (Create v)
  then show ?thesis by (auto simp: is_bibr_data_def data_attribute_def split: option.splits)
next
  case (Delete v)
  then show ?thesis by (auto simp: is_bibr_data_def data_attribute_def split: option.splits)
next
  case (Set path val original)
  then show ?thesis
    by (auto simp: sets_attribute_def current_ref_type_def split: option.splits)
next
  case Other
  then show ?thesis by simp
qed

lemma ops_loop_True: "ops_loop doc ops True"
  by (cases ops) simp_all

lemma ops_loop_iff: "ops_loop doc ops False \<longleftrightarrow> (\<exists>op \<in> set ops. op_needsUpdate doc op)"
  by (induction ops) (auto simp: Let_def)

subsection \<open>Evaluating the code on a document\<close>

lemmas ev = session_of_def bibr_xref_def ref_list_def ref_def
  findAll_bibr_xrefs_def is_bibr_xref_def getAttribute_def find_ref_list_def
  updateCitationLabels_def getBibliography_def findAll_refs_def is_ref_list_ref_def get_def
  set_xref_label_def set_ref_label_pos_def resolve_entity_def empty_state_def or_empty_def
  js_sort_def insertion_step_def pos_comparefn_def state_pos_def Let_def decimal.simps
  stored_label_def stored_pos_def label_after_def pos_after_def flows_after_def
  onDocumentChange_def run_timer_def is_bibr_data_def rids_of_def all_rids_def
  js_get_def js_set_def hasOwnProperty_def proto_names_def recorded_keys_def
  inherited_string_def order_after_def numbers_after_def storable_def

section \<open>The claims\<close>

subsection \<open>C1: the labels and positions stored at the bibliography entries\<close>

text \<open>
  C1 as stated fails on the code. The objects \<^verbatim>\<open>refLabels\<close> and \<^verbatim>\<open>order\<close> are read at
  \<^verbatim>\<open>ref.id\<close>, not at the \<^verbatim>\<open>rid\<close> attribute of the entry: in \<open>rid_keyed_document\<close> the marker
  lists \<open>e1\<close>, the entry \<open>r1\<close> has the \<^verbatim>\<open>rid\<close> attribute \<open>e1\<close>, and after the recompute the
  entry has the empty label and no position, where the claim promises the label of
  position 1. With no in-scope marker the recompute returns before it writes
  anything: in \<open>stale_document\<close> no marker lists anything, and the entry keeps the label
  \<open>1\<close> and the position 1, where the claim promises the empty label and no position.
  The two reads go through the prototype: in \<open>constructor_document\<close> no marker lists the
  entry \<^verbatim>\<open>constructor\<close>, and its label and its position are the function that every
  object inherits under that name. And in \<open>method_named_document\<close> the marker lists
  \<^verbatim>\<open>hasOwnProperty\<close> before \<open>A\<close>, and the recompute throws before it labels the entry \<open>A\<close>.
\<close>

theorem entry_label_by_rid_counterexample:
  "get rid_keyed_document ''r1'' = Some (ref ''r1'' ''e1'' ''rl'' None) \<and>
   getAttribute (ref ''r1'' ''e1'' ''rl'' None) ''rid'' = Some ''e1'' \<and>
   ''e1'' \<in> set (all_rids (findAll_bibr_xrefs rid_keyed_document)) \<and>
   number_label (Position (Val (first_rank (all_rids (findAll_bibr_xrefs rid_keyed_document)) ''e1''))) = ''1'' \<and>
   label_after (updateCitationLabels number_label (session_of rid_keyed_document)) ''r1'' = Inr (Val []) \<and>
   pos_after (updateCitationLabels number_label (session_of rid_keyed_document)) ''r1'' = Inr Undefined \<and>
   findAll_bibr_xrefs stale_document = [] \<and>
   label_after (updateCitationLabels number_label (session_of stale_document)) ''r1'' = Inr (Val ''1'') \<and>
   pos_after (updateCitationLabels number_label (session_of stale_document)) ''r1'' = Inr (Val 1) \<and>
   all_rids (findAll_bibr_xrefs constructor_document) = [''A''] \<and>
   label_after (updateCitationLabels number_label (session_of constructor_document)) ''constructor'' =
     Inr (Inherited ''constructor'') \<and>
   pos_after (updateCitationLabels number_label (session_of constructor_document)) ''constructor'' =
     Inr (Inherited ''constructor'') \<and>
   all_rids (findAll_bibr_xrefs method_named_document) = [''hasOwnProperty'', ''A''] \<and>
   label_after (updateCitationLabels number_label (session_of method_named_document)) ''A'' =
     Inl TypeError"
  by (simp add: ev rid_keyed_document_def stale_document_def constructor_document_def
      method_named_document_def first_rank_def)

text \<open>
  C1, amended. With no in-scope marker a recompute returns the session as it found it,
  so every entry keeps the label and the position it had. After a recompute of a
  document that has at least one in-scope marker, where every in-scope marker has a
  \<^verbatim>\<open>rid\<close> attribute, no marker lists \<^verbatim>\<open>hasOwnProperty\<close> or \<^verbatim>\<open>__proto__\<close> and the document has a
  \<^verbatim>\<open>ref-list\<close>, the recompute returns and every entry of the \<^verbatim>\<open>ref-list\<close> has a state; if the
  id of the entry node is among the identifiers that the in-scope markers list, the
  stored label is the label of the position assigned to that id and the stored position
  is that position; if it is not among them and is not a property name of
  \<^verbatim>\<open>Object.prototype\<close>, the stored label is the empty string and the position is unset.
\<close>

theorem entry_label_follows_node_id:
  "(findAll_bibr_xrefs (document s) = [] \<longrightarrow> updateCitationLabels getLabel s = Inr s) \<and>
   (findAll_bibr_xrefs (document s) \<noteq> [] \<longrightarrow>
    (\<forall>x \<in> set (findAll_bibr_xrefs (document s)). getAttribute x ''rid'' \<noteq> None) \<longrightarrow>
    list_all storable (all_rids (findAll_bibr_xrefs (document s))) \<longrightarrow>
    find_ref_list (document s) \<noteq> None \<longrightarrow>
    (\<exists>s'. updateCitationLabels getLabel s = Inr s' \<and>
       (\<forall>n \<in> set (document s'). is_ref_list_ref (document s') n \<longrightarrow>
          (\<exists>st. state n = Some st \<and>
             (if node_id n \<in> set (all_rids (findAll_bibr_xrefs (document s)))
              then label st = Val (getLabel (Position (Val
                     (first_rank (all_rids (findAll_bibr_xrefs (document s))) (node_id n))))) \<and>
                   pos st = Val (first_rank (all_rids (findAll_bibr_xrefs (document s))) (node_id n))
              else node_id n \<notin> set proto_names \<longrightarrow>
                   label st = Val [] \<and> pos st = Undefined)))))"
proof (intro conjI impI)
  assume "findAll_bibr_xrefs (document s) = []"
  then show "updateCitationLabels getLabel s = Inr s"
    by (rule updateCitationLabels_empty)
next
  assume ne: "findAll_bibr_xrefs (document s) \<noteq> []"
    and rid: "\<forall>x \<in> set (findAll_bibr_xrefs (document s)). getAttribute x ''rid'' \<noteq> None"
    and st: "list_all storable (all_rids (findAll_bibr_xrefs (document s)))"
    and rl: "find_ref_list (document s) \<noteq> None"
  from rl obtain r where r: "find_ref_list (document s) = Some r" by auto
  from recompute_returns [OF rid st r ne, of getLabel]
  obtain p order refLabels xrefLabels where
    inv: "ranked (all_rids (findAll_bibr_xrefs (document s))) p order"
      "labelled getLabel order refLabels"
    and upd: "updateCitationLabels getLabel s =
       Inr (s\<lparr>document := map (rewrite (document s) (entityDb s) order refLabels xrefLabels) (document s),
              dirty := insert ''document'' (dirty s),
              change := Some (notified (document s) r),
              flows := flows s @ [notified (document s) r]\<rparr>)"
    by blast
  then obtain s' where s': "updateCitationLabels getLabel s = Inr s'"
    and d: "document s' = map (rewrite (document s) (entityDb s) order refLabels xrefLabels) (document s)"
    by simp
  have same: "is_ref_list_ref (document s') n = is_ref_list_ref (document s) n" for n
    unfolding d by (rule is_ref_list_ref_map) (rule same_shape_rewrite)
  have "\<exists>st. state n = Some st \<and>
             (if node_id n \<in> set (all_rids (findAll_bibr_xrefs (document s)))
              then label st = Val (getLabel (Position (Val
                     (first_rank (all_rids (findAll_bibr_xrefs (document s))) (node_id n))))) \<and>
                   pos st = Val (first_rank (all_rids (findAll_bibr_xrefs (document s))) (node_id n))
              else node_id n \<notin> set proto_names \<longrightarrow>
                   label st = Val [] \<and> pos st = Undefined)"
    if "n \<in> set (document s')" "is_ref_list_ref (document s') n" for n
  proof -
    have m: "n \<in> set (map (rewrite (document s) (entityDb s) order refLabels xrefLabels) (document s))"
      using that(1) d by simp
    have e: "is_ref_list_ref (document s) n"
      using that(2) same by simp
    from stored_entry_labels [OF inv m e]
    obtain st where "state n = Some st"
      and "if node_id n \<in> set (all_rids (findAll_bibr_xrefs (document s)))
           then label st = Val (getLabel (Position (Val
                  (first_rank (all_rids (findAll_bibr_xrefs (document s))) (node_id n))))) \<and>
                pos st = Val (first_rank (all_rids (findAll_bibr_xrefs (document s))) (node_id n))
           else if node_id n \<in> set proto_names
           then label st = Inherited (node_id n) \<and> pos st = Inherited (node_id n)
           else label st = Val [] \<and> pos st = Undefined"
      by blast
    then show ?thesis
      by (cases "node_id n \<in> set (all_rids (findAll_bibr_xrefs (document s)))") simp_all
  qed
  with s' show "\<exists>s'. updateCitationLabels getLabel s = Inr s' \<and>
       (\<forall>n \<in> set (document s'). is_ref_list_ref (document s') n \<longrightarrow>
          (\<exists>st. state n = Some st \<and>
             (if node_id n \<in> set (all_rids (findAll_bibr_xrefs (document s)))
              then label st = Val (getLabel (Position (Val
                     (first_rank (all_rids (findAll_bibr_xrefs (document s))) (node_id n))))) \<and>
                   pos st = Val (first_rank (all_rids (findAll_bibr_xrefs (document s))) (node_id n))
              else node_id n \<notin> set proto_names \<longrightarrow>
                   label st = Val [] \<and> pos st = Undefined)))"
    by blast
qed

theorem entry_label_follows_node_id_witness:
  "findAll_bibr_xrefs (document (session_of stale_document)) = [] \<and>
   updateCitationLabels number_label (session_of stale_document) = Inr (session_of stale_document) \<and>
   map (\<lambda>x. getAttribute x ''rid'') (findAll_bibr_xrefs (document (session_of cited_document))) =
     [Some ''B A'', Some ''A C''] \<and>
   all_rids (findAll_bibr_xrefs (document (session_of cited_document))) = [''B'', ''A'', ''A'', ''C''] \<and>
   find_ref_list (document (session_of cited_document)) \<noteq> None \<and>
   (\<exists>s'. updateCitationLabels number_label (session_of cited_document) = Inr s' \<and>
      (\<forall>n \<in> set (document s'). is_ref_list_ref (document s') n \<longrightarrow> state n \<noteq> None) \<and>
      stored_label (document s') ''A'' = Val ''2'' \<and> stored_pos (document s') ''A'' = Val 2 \<and>
      stored_label (document s') ''D'' = Val [] \<and> stored_pos (document s') ''D'' = Undefined)"
proof -
  let ?s = "session_of cited_document"
  have e: "findAll_bibr_xrefs (document (session_of stale_document)) = []"
    by (simp add: ev stale_document_def)
  have e': "updateCitationLabels number_label (session_of stale_document) = Inr (session_of stale_document)"
    using entry_label_follows_node_id [of "session_of stale_document" number_label] e by blast
  have h0: "map (\<lambda>x. getAttribute x ''rid'') (findAll_bibr_xrefs (document ?s)) =
      [Some ''B A'', Some ''A C'']"
    by (simp add: ev cited_document_def)
  have h1: "\<forall>x \<in> set (findAll_bibr_xrefs (document ?s)). getAttribute x ''rid'' \<noteq> None"
    by (simp add: ev cited_document_def)
  have i0: "all_rids (findAll_bibr_xrefs (document ?s)) = [''B'', ''A'', ''A'', ''C'']"
    by (simp add: ev cited_document_def)
  have i1: "list_all storable (all_rids (findAll_bibr_xrefs (document ?s)))"
    unfolding i0 by (simp add: storable_def)
  have h2: "find_ref_list (document ?s) \<noteq> None"
    by (simp add: ev cited_document_def)
  have h3: "findAll_bibr_xrefs (document ?s) \<noteq> []"
    by (simp add: ev cited_document_def)
  from entry_label_follows_node_id [of ?s number_label] h1 i1 h2 h3
  obtain s' where run: "updateCitationLabels number_label ?s = Inr s'"
    and st: "\<forall>n \<in> set (document s'). is_ref_list_ref (document s') n \<longrightarrow> state n \<noteq> None"
    by blast
  have "\<exists>t. updateCitationLabels number_label ?s = Inr t \<and>
      stored_label (document t) ''A'' = Val ''2'' \<and> stored_pos (document t) ''A'' = Val 2 \<and>
      stored_label (document t) ''D'' = Val [] \<and> stored_pos (document t) ''D'' = Undefined"
    by (simp add: ev cited_document_def)
  with run have "stored_label (document s') ''A'' = Val ''2'' \<and> stored_pos (document s') ''A'' = Val 2 \<and>
      stored_label (document s') ''D'' = Val [] \<and> stored_pos (document s') ''D'' = Undefined"
    by auto
  with e e' h0 i0 h2 run st show ?thesis
    by blast
qed

subsection \<open>C2: two notifications before the deferred recompute runs\<close>




subsection \<open>C3: the order of the bibliography\<close>

text \<open>
  C3. The claim is that \<^verbatim>\<open>getBibliography\<close> returns the entries sorted ascending by
  position, the entries without a position last. The comparator of the source returns
  the boolean \<^verbatim>\<open>a.state.pos > b.state.pos\<close>, never a negative number, and the boolean is
  false whenever one of the two positions is \<^verbatim>\<open>undefined\<close>. In \<open>unsorted_document\<close> the
  marker lists \<open>r1\<close> and then \<open>r2\<close>, and the \<^verbatim>\<open>ref-list\<close> holds \<open>r2\<close>, the uncited \<open>rD\<close> and \<open>r1\<close>.
  After the recompute \<^verbatim>\<open>getBibliography\<close> returns them as they stand: position 2 before
  position 1, and the entry without a position between them.
\<close>

theorem bibliography_left_unsorted:
  "bibliography_after (updateCitationLabels number_label (session_of unsorted_document)) =
     Inr [(''r2'', Val 2), (''rD'', Undefined), (''r1'', Val 1)]"
  by (simp add: ev unsorted_document_def bibliography_after_def)

subsection \<open>C4: the order map\<close>




subsection \<open>C5: the labels stored at the markers\<close>




subsection \<open>C6: the change classifier\<close>

text \<open>
  C6. The loop over the operations of a change sets \<^verbatim>\<open>needsUpdate\<close> exactly when some
  operation matches one of the three rules of the specification. In particular, a
  \<^verbatim>\<open>set\<close> of an attribute other than \<^verbatim>\<open>ref-type\<close> and \<^verbatim>\<open>rid\<close> is not relevant; a \<^verbatim>\<open>set\<close> of \<^verbatim>\<open>rid\<close> on
  a node whose reference kind is not the sentinel is not relevant, and on a node whose
  reference kind is the sentinel it is; and when the node of such a \<^verbatim>\<open>set\<close> no longer
  exists, the operation is passed over and the scan goes on with the rest.
\<close>

theorem classifier_matches_three_rules:
  "(ops_loop doc ops False \<longleftrightarrow> spec_isRelevant doc ops) \<and>
   (path_at path1 2 \<noteq> Some ''ref-type'' \<longrightarrow> path_at path1 2 \<noteq> Some ''rid'' \<longrightarrow>
      \<not> ops_loop doc [Set path1 val1 original1] False) \<and>
   (sets_attribute path2 ''rid'' \<longrightarrow> path_at path2 0 = Some i2 \<longrightarrow> get doc i2 = Some node2 \<longrightarrow>
      getAttribute node2 ''ref-type'' \<noteq> Some ''bibr'' \<longrightarrow>
      \<not> ops_loop doc [Set path2 val2 original2] False) \<and>
   (sets_attribute path3 ''rid'' \<longrightarrow> path_at path3 0 = Some i3 \<longrightarrow> get doc i3 = Some node3 \<longrightarrow>
      getAttribute node3 ''ref-type'' = Some ''bibr'' \<longrightarrow>
      ops_loop doc [Set path3 val3 original3] False) \<and>
   (sets_attribute path4 ''rid'' \<longrightarrow> path_at path4 0 = Some i4 \<longrightarrow> get doc i4 = None \<longrightarrow>
      ops_loop doc (Set path4 val4 original4 # rest) False = ops_loop doc rest False)"
proof (intro conjI impI)
  show "ops_loop doc ops False \<longleftrightarrow> spec_isRelevant doc ops"
    by (simp add: ops_loop_iff op_needsUpdate_rules spec_isRelevant_def)
next
  assume "path_at path1 2 \<noteq> Some ''ref-type''" "path_at path1 2 \<noteq> Some ''rid''"
  then show "\<not> ops_loop doc [Set path1 val1 original1] False"
    by simp
next
  assume "sets_attribute path2 ''rid''" "path_at path2 0 = Some i2" "get doc i2 = Some node2"
    "getAttribute node2 ''ref-type'' \<noteq> Some ''bibr''"
  then show "\<not> ops_loop doc [Set path2 val2 original2] False"
    by (simp add: sets_attribute_def)
next
  assume "sets_attribute path3 ''rid''" "path_at path3 0 = Some i3" "get doc i3 = Some node3"
    "getAttribute node3 ''ref-type'' = Some ''bibr''"
  then show "ops_loop doc [Set path3 val3 original3] False"
    by (simp add: sets_attribute_def)
next
  assume "sets_attribute path4 ''rid''" "path_at path4 0 = Some i4" "get doc i4 = None"
  then show "ops_loop doc (Set path4 val4 original4 # rest) False = ops_loop doc rest False"
    by (simp add: sets_attribute_def)
qed

theorem classifier_matches_three_rules_witness:
  "spec_isRelevant mixed_document [Other, Set [''x1'', ''attributes'', ''rid''] (Some ''B'') (Some ''A'')] \<and>
   ops_loop mixed_document [Other, Set [''x1'', ''attributes'', ''rid''] (Some ''B'') (Some ''A'')] False \<and>
   \<not> ops_loop mixed_document [Set [''x1'', ''attributes'', ''style''] (Some ''bold'') None] False \<and>
   get mixed_document ''x3'' = Some fig_xref \<and>
   getAttribute fig_xref ''ref-type'' \<noteq> Some ''bibr'' \<and>
   \<not> ops_loop mixed_document [Set [''x3'', ''attributes'', ''rid''] (Some ''f2'') (Some ''f1'')] False \<and>
   get mixed_document ''x1'' = Some (bibr_xref ''x1'' ''A'') \<and>
   ops_loop mixed_document [Set [''x1'', ''attributes'', ''rid''] (Some ''B'') (Some ''A'')] False \<and>
   get mixed_document ''gone'' = None \<and>
   \<not> ops_loop mixed_document [Set [''gone'', ''attributes'', ''rid''] (Some ''B'') (Some ''A'')] False \<and>
   ops_loop mixed_document
     [Set [''gone'', ''attributes'', ''rid''] (Some ''B'') (Some ''A''), create_citation] False"
proof -
  have rel: "spec_isRelevant mixed_document
      [Other, Set [''x1'', ''attributes'', ''rid''] (Some ''B'') (Some ''A'')]"
    by (simp add: spec_isRelevant_def sets_attribute_def current_ref_type_def path_at_def ev
        mixed_document_def fig_xref_def)
  have p1: "path_at [''x1'', ''attributes'', ''style''] 2 \<noteq> Some ''ref-type''"
    "path_at [''x1'', ''attributes'', ''style''] 2 \<noteq> Some ''rid''"
    by (simp_all add: path_at_def)
  have p2: "sets_attribute [''x3'', ''attributes'', ''rid''] ''rid''"
    "path_at [''x3'', ''attributes'', ''rid''] 0 = Some ''x3''"
    "get mixed_document ''x3'' = Some fig_xref"
    "getAttribute fig_xref ''ref-type'' \<noteq> Some ''bibr''"
    by (simp_all add: sets_attribute_def path_at_def ev mixed_document_def fig_xref_def)
  have p3: "sets_attribute [''x1'', ''attributes'', ''rid''] ''rid''"
    "path_at [''x1'', ''attributes'', ''rid''] 0 = Some ''x1''"
    "get mixed_document ''x1'' = Some (bibr_xref ''x1'' ''A'')"
    "getAttribute (bibr_xref ''x1'' ''A'') ''ref-type'' = Some ''bibr''"
    by (simp_all add: sets_attribute_def path_at_def ev mixed_document_def fig_xref_def)
  have p4: "sets_attribute [''gone'', ''attributes'', ''rid''] ''rid''"
    "path_at [''gone'', ''attributes'', ''rid''] 0 = Some ''gone''"
    "get mixed_document ''gone'' = None"
    by (simp_all add: sets_attribute_def path_at_def ev mixed_document_def fig_xref_def)
  have c: "ops_loop mixed_document [create_citation] False"
    by (simp add: ev mixed_document_def fig_xref_def create_citation_def)
  note t = classifier_matches_three_rules
    [of mixed_document "[Other, Set [''x1'', ''attributes'', ''rid''] (Some ''B'') (Some ''A'')]"
      "[''x1'', ''attributes'', ''style'']" "Some ''bold''" None
      "[''x3'', ''attributes'', ''rid'']" "''x3''" fig_xref "Some ''f2''" "Some ''f1''"
      "[''x1'', ''attributes'', ''rid'']" "''x1''" "bibr_xref ''x1'' ''A''" "Some ''B''" "Some ''A''"
      "[''gone'', ''attributes'', ''rid'']" "''gone''" "Some ''B''" "Some ''A''"]
  have e: "ops_loop mixed_document
      [Set [''gone'', ''attributes'', ''rid''] (Some ''B'') (Some ''A''), create_citation] False"
    using t [of "[create_citation]"] p4 c by blast
  have n: "\<not> ops_loop mixed_document
      [Set [''gone'', ''attributes'', ''rid''] (Some ''B'') (Some ''A'')] False"
    using t [of "[]"] p4 by simp
  show ?thesis
    using t [of "[]"] rel p1 p2 p3 p4 e n by blast
qed

subsection \<open>C7: a marker with an empty rid attribute\<close>




subsection \<open>C8: running the recompute twice\<close>

text \<open>
  C8. A recompute that runs on the session that a recompute has left, with no change of
  the document in between, returns, computes the same order map, the same entry labels
  and the same marker labels, and leaves every node of the document as it found it.
\<close>

theorem recompute_is_idempotent:
  assumes "updateCitationLabels getLabel s = Inr s'"
  shows "\<exists>s''. updateCitationLabels getLabel s' = Inr s'' \<and>
     document s'' = document s' \<and>
     xrefs_forEach getLabel (findAll_bibr_xrefs (document s')) 1 Map.empty Map.empty Map.empty =
     xrefs_forEach getLabel (findAll_bibr_xrefs (document s)) 1 Map.empty Map.empty Map.empty"
  using updateCitationLabels_cases [OF assms]
proof
  assume "findAll_bibr_xrefs (document s) = [] \<and> s' = s"
  with assms show ?thesis by simp
next
  assume "\<exists>p order refLabels xrefLabels rl.
        findAll_bibr_xrefs (document s) \<noteq> [] \<and>
        xrefs_forEach getLabel (findAll_bibr_xrefs (document s)) 1 Map.empty Map.empty Map.empty =
              Inr (p, order, refLabels, xrefLabels) \<and>
        find_ref_list (document s) = Some rl"
  then obtain p order refLabels xrefLabels rl where
    ne: "findAll_bibr_xrefs (document s) \<noteq> []"
    and c: "xrefs_forEach getLabel (findAll_bibr_xrefs (document s)) 1 Map.empty Map.empty Map.empty =
              Inr (p, order, refLabels, xrefLabels)"
    and rl: "find_ref_list (document s) = Some rl"
    by blast
  from recompute_twice [OF ne c rl assms] c show ?thesis
    by auto
qed

theorem recompute_is_idempotent_witness:
  "\<exists>s' s''. updateCitationLabels number_label (session_of cited_document) = Inr s' \<and>
     updateCitationLabels number_label s' = Inr s'' \<and>
     document s'' = document s' \<and>
     stored_label (document s'') ''x2'' = Val ''2,3'' \<and>
     stored_pos (document s'') ''A'' = Val 2"
proof -
  obtain s' where run: "updateCitationLabels number_label (session_of cited_document) = Inr s'"
    and l: "stored_label (document s') ''x2'' = Val ''2,3''" "stored_pos (document s') ''A'' = Val 2"
    by (simp add: ev cited_document_def)
  from recompute_is_idempotent [OF run]
  obtain s'' where "updateCitationLabels number_label s' = Inr s''" "document s'' = document s'"
    by blast
  with run l show ?thesis
    by auto
qed

subsection \<open>C9: no marker in scope\<close>

text \<open>
  C9. When the document has no in-scope citation marker, a recompute returns at once:
  the session it leaves is the session it found, so no node state is written and no
  flow is started.
\<close>

theorem no_markers_no_effect:
  "findAll_bibr_xrefs (document s) = [] \<Longrightarrow> updateCitationLabels getLabel s = Inr s"
  by (simp add: updateCitationLabels_def)

theorem no_markers_no_effect_witness:
  "findAll_bibr_xrefs (document (session_of [ref_list ''rl'', ref ''r1'' ''e1'' ''rl'' None])) = [] \<and>
   updateCitationLabels number_label (session_of [ref_list ''rl'', ref ''r1'' ''e1'' ''rl'' None]) =
     Inr (session_of [ref_list ''rl'', ref ''r1'' ''e1'' ''rl'' None])"
proof -
  have h: "findAll_bibr_xrefs (document (session_of [ref_list ''rl'', ref ''r1'' ''e1'' ''rl'' None])) = []"
    by (simp add: findAll_bibr_xrefs_def session_of_def is_bibr_xref_def ref_list_def ref_def)
  show ?thesis
    using h no_markers_no_effect [OF h, of number_label] by simp
qed

subsection \<open>C10: the positions are consecutive\<close>




end
